theory Spec2Isabelle
  imports Complex_Main "HOL-Library.Word"
begin

section \<open>The local test server (test\_server/test\_server.py)\<close>

text \<open>
  A shallow embedding of the Flask handlers of \<^verbatim>\<open>test_server.py\<close>: the range-aware file
  streamer \<^verbatim>\<open>serve_file\<close> with its chunk generator, the JSON accessor
  \<^verbatim>\<open>get_json_data\<close>, the httpbin handlers for PUT, PATCH and DELETE, and
  \<^verbatim>\<open>response_headers\<close>.

  Conventions. A Python \<^verbatim>\<open>str\<close> or \<^verbatim>\<open>bytes\<close> value is a \<open>string\<close>: a list of
  characters, each a code point below 256 (a header value reaches the handler decoded as
  Latin-1, one character per byte). The content of a file is a list of bytes. Python's
  unbounded \<^verbatim>\<open>int\<close> is \<open>int\<close>. An exception is a value of \<open>py_error\<close>. The pacing of
  the stream (\<^verbatim>\<open>FILE_DELAYS\<close>, \<^verbatim>\<open>time.sleep\<close>) changes no value that is sent and is left
  out.
\<close>

type_synonym byte = "8 word"

datatype py_error = ValueError | OSError | UnicodeDecodeError | BadRequest

subsection \<open>Python's string operations used by the handlers\<close>

text \<open>\<^verbatim>\<open>s.replace(old, '')\<close>: every occurrence of \<open>old\<close>, found from the left and not
  overlapping, is removed.\<close>

function str_remove :: "string \<Rightarrow> string \<Rightarrow> string" where
  "str_remove old s =
     (if s = [] \<or> old = [] then s
      else if take (length old) s = old then str_remove old (drop (length old) s)
      else hd s # str_remove old (tl s))"
  by pat_completeness auto
termination
  by (relation "measure (\<lambda>(old, s). length s)") auto

declare str_remove.simps [simp del]

text \<open>\<^verbatim>\<open>s.split(sep)\<close> for a separator of one character: never the empty list.\<close>

fun split_on :: "char \<Rightarrow> string \<Rightarrow> string list" where
  "split_on sep [] = [[]]"
| "split_on sep (c # cs) =
     (if c = sep then [] # split_on sep cs
      else (case split_on sep cs of
              [] \<Rightarrow> [[c]]
            | p # ps \<Rightarrow> (c # p) # ps))"

text \<open>
  \<^verbatim>\<open>s.lower()\<close> on the code points below 256: the capitals \<^verbatim>\<open>A\<close> to \<^verbatim>\<open>Z\<close> (65 to 90) and
  the Latin-1 capitals (192 to 222, without the multiplication sign 215) move up by 32;
  every other character stays.
\<close>

definition is_upper :: "char \<Rightarrow> bool" where
  "is_upper c =
     (((65::nat) \<le> of_char c \<and> (of_char c :: nat) \<le> 90)
      \<or> ((192::nat) \<le> of_char c \<and> (of_char c :: nat) \<le> 214)
      \<or> ((216::nat) \<le> of_char c \<and> (of_char c :: nat) \<le> 222))"

definition lower_char :: "char \<Rightarrow> char" where
  "lower_char c = (if is_upper c then char_of ((of_char c :: nat) + 32) else c)"

definition lower :: "string \<Rightarrow> string" where
  "lower s = map lower_char s"

text \<open>\<^verbatim>\<open>s.endswith(t)\<close>.\<close>

definition endswith :: "string \<Rightarrow> string \<Rightarrow> bool" where
  "endswith s t = (length t \<le> length s \<and> drop (length s - length t) s = t)"

subsection \<open>\<^verbatim>\<open>int(s)\<close> and \<^verbatim>\<open>str(n)\<close>\<close>

text \<open>
  \<^verbatim>\<open>int(s)\<close> in base ten: white space around the literal is dropped, one sign may lead,
  and the rest is groups of decimal digits joined by single underscores. Anything else
  raises \<^verbatim>\<open>ValueError\<close>, which is \<open>None\<close> here. So does a literal of more than
  \<^verbatim>\<open>sys.int_max_str_digits\<close> digits, 4300 by default (Python 3.11 and later); underscores
  are not counted.
\<close>

definition int_max_str_digits :: nat where
  "int_max_str_digits = 4300"

definition py_isspace :: "char \<Rightarrow> bool" where
  "py_isspace c =
     (((9::nat) \<le> of_char c \<and> (of_char c :: nat) \<le> 13) \<or> (of_char c :: nat) = 32
      \<or> (of_char c :: nat) = 133 \<or> (of_char c :: nat) = 160)"

definition py_strip :: "string \<Rightarrow> string" where
  "py_strip s = rev (dropWhile py_isspace (rev (dropWhile py_isspace s)))"

definition is_digit :: "char \<Rightarrow> bool" where
  "is_digit c = ((48::nat) \<le> of_char c \<and> (of_char c :: nat) \<le> 57)"

definition digit_val :: "char \<Rightarrow> nat" where
  "digit_val c = of_char c - 48"

definition digits_val :: "string \<Rightarrow> nat" where
  "digits_val s = foldl (\<lambda>acc c. acc * 10 + digit_val c) 0 s"

definition digit_group :: "string \<Rightarrow> bool" where
  "digit_group g = (g \<noteq> [] \<and> list_all is_digit g)"

definition py_int_digits :: "string \<Rightarrow> nat option" where
  "py_int_digits r =
     (if list_all digit_group (split_on (CHR ''_'') r)
         \<and> length (concat (split_on (CHR ''_'') r)) \<le> int_max_str_digits
      then Some (digits_val (concat (split_on (CHR ''_'') r)))
      else None)"

definition py_int :: "string \<Rightarrow> int option" where
  "py_int s =
     (case py_strip s of
        [] \<Rightarrow> None
      | c # r \<Rightarrow>
          if c = CHR ''-'' then map_option (\<lambda>n. - int n) (py_int_digits r)
          else if c = CHR ''+'' then map_option int (py_int_digits r)
          else map_option int (py_int_digits (c # r)))"

text \<open>\<^verbatim>\<open>str(n)\<close>, which is also how an f-string renders an \<^verbatim>\<open>int\<close>.\<close>

definition digit_char :: "nat \<Rightarrow> char" where
  "digit_char d = char_of (48 + d)"

function str_nat :: "nat \<Rightarrow> string" where
  "str_nat n = (if n < 10 then [digit_char n] else str_nat (n div 10) @ [digit_char (n mod 10)])"
  by pat_completeness auto
termination
  by (relation "measure (\<lambda>n. n)") auto

declare str_nat.simps [simp del]

definition str_int :: "int \<Rightarrow> string" where
  "str_int i = (if i < 0 then CHR ''-'' # str_nat (nat (- i)) else str_nat (nat i))"

subsection \<open>\<^verbatim>\<open>serve_file\<close>: range handling\<close>

definition chunk_size :: int where
  "chunk_size = 64 * 1024"

text \<open>
  The body of the \<^verbatim>\<open>try\<close> block. The result is \<open>(start_byte, end_byte, status_code)\<close>
  as the three variables stand after the block. An exception (\<^verbatim>\<open>int\<close> raising
  \<^verbatim>\<open>ValueError\<close>) leaves the block at once: the variables keep what was assigned before
  it, and \<open>status_code\<close> stays 200.
\<close>

definition parse_range :: "int \<Rightarrow> string \<Rightarrow> int \<times> int \<times> int" where
  "parse_range total_size range_header =
     (case split_on (CHR ''-'') (str_remove ''bytes='' range_header) of
        [] \<Rightarrow> (0, total_size - 1, 200)
      | p0 # rest \<Rightarrow>
          (if p0 = [] \<and> rest \<noteq> [] \<and> hd rest \<noteq> [] then
             (case py_int (hd rest) of
                None \<Rightarrow> (0, total_size - 1, 200)
              | Some suffix_length \<Rightarrow> (total_size - suffix_length, total_size - 1, 206))
           else
             (case (if p0 \<noteq> [] then py_int p0 else Some 0) of
                None \<Rightarrow> (0, total_size - 1, 200)
              | Some start_byte \<Rightarrow>
                  (case (if rest \<noteq> [] \<and> hd rest \<noteq> [] then py_int (hd rest)
                         else Some (total_size - 1)) of
                     None \<Rightarrow> (start_byte, total_size - 1, 200)
                   | Some end_byte \<Rightarrow>
                       (start_byte,
                        if end_byte \<ge> total_size then total_size - 1 else end_byte,
                        206)))))"

text \<open>\<^verbatim>\<open>request.headers.get('Range', None)\<close> is \<open>None\<close> or the header's value; an empty
  value is falsy and skips the block.\<close>

definition range_handling :: "int \<Rightarrow> string option \<Rightarrow> int \<times> int \<times> int" where
  "range_handling total_size range_header =
     (case range_header of
        None \<Rightarrow> (0, total_size - 1, 200)
      | Some h \<Rightarrow> if h = [] then (0, total_size - 1, 200) else parse_range total_size h)"

subsection \<open>\<^verbatim>\<open>serve_file\<close>: the chunk generator\<close>

text \<open>\<^verbatim>\<open>f.read(n)\<close> on a buffered binary file at position \<open>pos\<close>, for \<open>n > 0\<close>: the next
  \<open>n\<close> bytes, fewer only at the end of the file.\<close>

definition f_read :: "byte list \<Rightarrow> nat \<Rightarrow> int \<Rightarrow> byte list" where
  "f_read f pos n = take (nat n) (drop pos f)"

text \<open>The \<^verbatim>\<open>while bytes_to_send > 0\<close> loop; the result is the chunks it yields, in order.\<close>

function send_loop :: "byte list \<Rightarrow> nat \<Rightarrow> int \<Rightarrow> byte list list" where
  "send_loop f pos bytes_to_send =
     (if bytes_to_send > 0 then
        (if f_read f pos (min chunk_size bytes_to_send) = [] then []
         else f_read f pos (min chunk_size bytes_to_send)
              # send_loop f (pos + length (f_read f pos (min chunk_size bytes_to_send)))
                  (bytes_to_send - int (length (f_read f pos (min chunk_size bytes_to_send)))))
      else [])"
  by pat_completeness auto
termination
  by (relation "measure (\<lambda>(f, pos, bytes_to_send). nat bytes_to_send)") auto

declare send_loop.simps [simp del]

text \<open>
  \<^verbatim>\<open>f.seek(offset)\<close> from the start of a buffered binary file: the exception it raises, if
  any. An offset that does not fit the signed 64-bit file offset raises \<^verbatim>\<open>ValueError\<close>, a
  negative one that fits raises \<^verbatim>\<open>OSError\<close> (invalid argument); a seek past the end of the
  file is allowed.
\<close>

definition f_seek :: "int \<Rightarrow> py_error option" where
  "f_seek offset =
     (if offset < - (2 ^ 63) \<or> 2 ^ 63 \<le> offset then Some ValueError
      else if offset < 0 then Some OSError
      else None)"

text \<open>
  \<^verbatim>\<open>generate()\<close>: the chunks yielded, and the exception that ended the generator, if any.
  The seek comes before the loop, so an exception of the seek ends the generator before
  anything is yielded.
\<close>

definition generate :: "byte list \<Rightarrow> int \<Rightarrow> int \<Rightarrow> byte list list \<times> py_error option" where
  "generate f start_byte content_length =
     (case f_seek start_byte of
        Some e \<Rightarrow> ([], Some e)
      | None \<Rightarrow> (send_loop f (nat start_byte) content_length, None))"

subsection \<open>\<^verbatim>\<open>serve_file\<close>: the handler\<close>

text \<open>
  A file of \<^verbatim>\<open>FILES_DIR\<close>: its bytes and its modification time in whole seconds
  (\<^verbatim>\<open>int(file_stat.st_mtime)\<close>). The size of a file is a signed 64-bit file offset
  (\<^verbatim>\<open>st_size\<close>), so a file holds fewer than \<open>2 ^ 63\<close> bytes. The directory is a map from
  file names to files. The file is taken not to change while the request is served, so
  \<^verbatim>\<open>os.path.getsize\<close>, \<^verbatim>\<open>st_size\<close> and the bytes read agree.
\<close>

typedef fs_file = "{f :: byte list \<times> int. length (fst f) < 2 ^ 63}"
proof
  show "([], 0) \<in> {f :: byte list \<times> int. length (fst f) < 2 ^ 63}" by simp
qed

definition content :: "fs_file \<Rightarrow> byte list" where
  "content file = fst (Rep_fs_file file)"

definition st_mtime :: "fs_file \<Rightarrow> int" where
  "st_mtime file = snd (Rep_fs_file file)"

text \<open>The file with the given bytes and modification time (the empty file when the list is
  too long to be one).\<close>

definition make_file :: "byte list \<Rightarrow> int \<Rightarrow> fs_file" where
  "make_file bytes mtime = Abs_fs_file (if length bytes < 2 ^ 63 then bytes else [], mtime)"

text \<open>A response: \<^verbatim>\<open>Response(text, status)\<close> has a fixed body; a streamed body is the
  chunks of the generator and the exception that ended it, if one did.\<close>

datatype body = Fixed string | Streamed "byte list list" "py_error option"

record response =
  status :: int
  headers :: "string \<rightharpoonup> string"
  body :: body

text \<open>
  \<open>http_date\<close> stands for \<^verbatim>\<open>time.strftime('%a, %d %b %Y %H:%M:%S GMT', time.gmtime(t))\<close>,
  \<open>files\<close> for the directory, \<open>range_header\<close> for
  \<^verbatim>\<open>request.headers.get('Range', None)\<close> and \<open>no_content_length_arg\<close> for
  \<^verbatim>\<open>request.args.get('no_content_length')\<close>. The headers are the dictionary the handler
  passes to \<^verbatim>\<open>Response\<close>.
\<close>

definition serve_file ::
  "(int \<Rightarrow> string) \<Rightarrow> (string \<rightharpoonup> fs_file) \<Rightarrow> string \<Rightarrow> string option \<Rightarrow> string option \<Rightarrow> response"
where
  "serve_file http_date files filename range_header no_content_length_arg =
     (case files filename of
        None \<Rightarrow> \<lparr>status = 404, headers = Map.empty, body = Fixed ''File not found''\<rparr>
      | Some file \<Rightarrow>
          (let total_size = int (length (content file));
               (start_byte, end_byte, status_code) = range_handling total_size range_header
           in if start_byte > end_byte
              then \<lparr>status = 416, headers = Map.empty,
                     body = Fixed ''Requested Range Not Satisfiable''\<rparr>
              else
                (let content_length = end_byte - start_byte + 1;
                     no_content_length = (no_content_length_arg = Some ''true'');
                     etag = CHR 0x22 # str_int (st_mtime file) @ ''-'' @ str_int total_size @ [CHR 0x22];
                     h0 = [''Accept-Ranges'' \<mapsto> ''bytes'', ''ETag'' \<mapsto> etag,
                           ''Last-Modified'' \<mapsto> http_date (st_mtime file)];
                     h1 = (if no_content_length then h0
                           else h0(''Content-Length'' \<mapsto> str_int content_length));
                     h2 = (if status_code = 206
                           then h1(''Content-Range'' \<mapsto>
                                  ''bytes '' @ str_int start_byte @ ''-'' @ str_int end_byte
                                  @ ''/'' @ str_int total_size)
                           else h1);
                     h3 = h2(''Content-Disposition'' \<mapsto> ''attachment; filename='' @ filename);
                     h4 = h3(''Content-Type'' \<mapsto>
                            (if endswith (lower filename) ''.zip'' then ''application/zip''
                             else ''application/octet-stream''))
                 in \<lparr>status = status_code, headers = h4,
                      body = (case generate (content file) start_byte content_length of
                                (chunks, err) \<Rightarrow> Streamed chunks err)\<rparr>)))"

subsection \<open>JSON values and the request of the echo handlers\<close>

text \<open>
  What \<^verbatim>\<open>json.loads\<close> returns: \<^verbatim>\<open>None\<close>, a \<^verbatim>\<open>bool\<close>, an \<^verbatim>\<open>int\<close>, a \<^verbatim>\<open>float\<close>, a
  \<^verbatim>\<open>str\<close>, a \<^verbatim>\<open>list\<close> or a \<^verbatim>\<open>dict\<close> (in insertion order). \<open>JNull\<close> is Python's
  \<^verbatim>\<open>None\<close>, so a handler's \<^verbatim>\<open>return None\<close> is \<open>JNull\<close>.
\<close>

datatype json =
    JNull
  | JBool bool
  | JInt int
  | JFloat real
  | JStr string
  | JArr "json list"
  | JObj "(string \<times> json) list"

text \<open>Python's truth value, as \<^verbatim>\<open>not json_data\<close> tests it.\<close>

fun truthy :: "json \<Rightarrow> bool" where
  "truthy JNull = False"
| "truthy (JBool b) = b"
| "truthy (JInt i) = (i \<noteq> 0)"
| "truthy (JFloat x) = (x \<noteq> 0)"
| "truthy (JStr s) = (s \<noteq> [])"
| "truthy (JArr xs) = (xs \<noteq> [])"
| "truthy (JObj kvs) = (kvs \<noteq> [])"

text \<open>
  The Flask request, as the handlers read it. The JSON parser and the UTF-8 decoder are
  library code, so a request carries their outcome on its own body:
  \<open>data_text\<close> is \<^verbatim>\<open>request.data.decode('utf-8')\<close> (\<open>None\<close> when it raises
  \<^verbatim>\<open>UnicodeDecodeError\<close>) and \<open>data_json\<close> is the value the JSON parser gives for the body
  (\<open>None\<close> when the parser raises). \<open>is_json\<close> is \<^verbatim>\<open>request.is_json\<close>: the Content-Type
  declares JSON. \<open>form\<close> and \<open>args\<close> are the \<^verbatim>\<open>MultiDict\<close>s of the form fields and
  of the query string: the (name, value) pairs in the order they were sent.
\<close>

record request =
  is_json :: bool
  data :: string
  data_text :: "string option"
  data_json :: "json option"
  form :: "(string \<times> string) list"
  args :: "(string \<times> string) list"
  request_headers :: "(string \<times> string) list"
  remote_addr :: string
  url :: string

text \<open>
  \<^verbatim>\<open>MultiDict.items()\<close> and \<^verbatim>\<open>MultiDict.to_dict()\<close>: one pair for each name, in the order
  the names first appear, with the first value of the name.
\<close>

fun first_values :: "string list \<Rightarrow> (string \<times> string) list \<Rightarrow> (string \<times> string) list" where
  "first_values seen [] = []"
| "first_values seen ((k, v) # kvs) =
     (if k \<in> set seen then first_values seen kvs else (k, v) # first_values (k # seen) kvs)"

definition multidict_items :: "(string \<times> string) list \<Rightarrow> (string \<times> string) list" where
  "multidict_items md = first_values [] md"

definition to_dict :: "(string \<times> string) list \<Rightarrow> (string \<times> string) list" where
  "to_dict md = multidict_items md"

text \<open>\<^verbatim>\<open>dict(pairs)\<close>: a later value replaces an earlier one of the same key, in place.\<close>

fun dict_set :: "string \<Rightarrow> string \<Rightarrow> (string \<times> string) list \<Rightarrow> (string \<times> string) list" where
  "dict_set k v [] = [(k, v)]"
| "dict_set k v ((k', v') # kvs) =
     (if k' = k then (k, v) # kvs else (k', v') # dict_set k v kvs)"

definition py_dict :: "(string \<times> string) list \<Rightarrow> (string \<times> string) list" where
  "py_dict kvs = foldl (\<lambda>d (k, v). dict_set k v d) [] kvs"

definition json_of_dict :: "(string \<times> string) list \<Rightarrow> json" where
  "json_of_dict d = JObj (map (\<lambda>(k, v). (k, JStr v)) d)"

subsection \<open>\<^verbatim>\<open>get_json_data\<close>\<close>

text \<open>
  \<^verbatim>\<open>request.json\<close> is read outside the \<^verbatim>\<open>try\<close>: when the body does not parse, Flask's
  \<^verbatim>\<open>on_json_loading_failed\<close> raises \<^verbatim>\<open>BadRequest\<close> (HTTP 400). The \<^verbatim>\<open>try\<close> covers the second
  attempt only, where any exception gives \<^verbatim>\<open>None\<close>.
\<close>

definition get_json_data :: "request \<Rightarrow> py_error + json" where
  "get_json_data request =
     (if is_json request then
        (case data_json request of
           None \<Rightarrow> Inl BadRequest
         | Some j \<Rightarrow> Inr j)
      else if data request \<noteq> [] then
        (case data_text request of
           None \<Rightarrow> Inr JNull
         | Some t \<Rightarrow>
             (case data_json request of
                None \<Rightarrow> Inr JNull
              | Some j \<Rightarrow> Inr j))
      else Inr JNull)"

subsection \<open>\<^verbatim>\<open>httpbin_put\<close>, \<^verbatim>\<open>httpbin_patch\<close>, \<^verbatim>\<open>httpbin_delete\<close>\<close>

text \<open>
  The three handlers have the same body. The result is \<open>response_map\<close>, the dictionary
  given to \<^verbatim>\<open>jsonify\<close>, or the exception that left the handler. The \<open>data\<close> entry is the
  conditional expression of the source: the body is decoded only when
  \<^verbatim>\<open>not json_data and not form_data\<close>.
\<close>

definition httpbin_put :: "request \<Rightarrow> py_error + (string \<times> json) list" where
  "httpbin_put request =
     (case get_json_data request of
        Inl e \<Rightarrow> Inl e
      | Inr json_data \<Rightarrow>
          (let form_data = to_dict (form request) in
           (case (if \<not> truthy json_data \<and> form_data = []
                  then map_option JStr (data_text request)
                  else Some (JStr [])) of
              None \<Rightarrow> Inl UnicodeDecodeError
            | Some d \<Rightarrow>
                Inr [(''args'', json_of_dict (to_dict (args request))),
                     (''data'', d),
                     (''files'', JObj []),
                     (''form'', json_of_dict form_data),
                     (''headers'', json_of_dict (py_dict (request_headers request))),
                     (''json'', json_data),
                     (''origin'', JStr (remote_addr request)),
                     (''url'', JStr (url request))])))"

definition httpbin_patch :: "request \<Rightarrow> py_error + (string \<times> json) list" where
  "httpbin_patch request =
     (case get_json_data request of
        Inl e \<Rightarrow> Inl e
      | Inr json_data \<Rightarrow>
          (let form_data = to_dict (form request) in
           (case (if \<not> truthy json_data \<and> form_data = []
                  then map_option JStr (data_text request)
                  else Some (JStr [])) of
              None \<Rightarrow> Inl UnicodeDecodeError
            | Some d \<Rightarrow>
                Inr [(''args'', json_of_dict (to_dict (args request))),
                     (''data'', d),
                     (''files'', JObj []),
                     (''form'', json_of_dict form_data),
                     (''headers'', json_of_dict (py_dict (request_headers request))),
                     (''json'', json_data),
                     (''origin'', JStr (remote_addr request)),
                     (''url'', JStr (url request))])))"

definition httpbin_delete :: "request \<Rightarrow> py_error + (string \<times> json) list" where
  "httpbin_delete request =
     (case get_json_data request of
        Inl e \<Rightarrow> Inl e
      | Inr json_data \<Rightarrow>
          (let form_data = to_dict (form request) in
           (case (if \<not> truthy json_data \<and> form_data = []
                  then map_option JStr (data_text request)
                  else Some (JStr [])) of
              None \<Rightarrow> Inl UnicodeDecodeError
            | Some d \<Rightarrow>
                Inr [(''args'', json_of_dict (to_dict (args request))),
                     (''data'', d),
                     (''files'', JObj []),
                     (''form'', json_of_dict form_data),
                     (''headers'', json_of_dict (py_dict (request_headers request))),
                     (''json'', json_data),
                     (''origin'', JStr (remote_addr request)),
                     (''url'', JStr (url request))])))"

subsection \<open>\<^verbatim>\<open>response_headers\<close>\<close>

text \<open>
  The headers of a werkzeug response are a list of (name, value) pairs.
  \<^verbatim>\<open>resp.headers[key] = value\<close> is \<^verbatim>\<open>Headers.set\<close>: the first header of that name, compared
  without case, is replaced where it stands and every other one of that name is removed;
  a new name is appended. A value with a carriage return or a line feed raises
  \<^verbatim>\<open>ValueError\<close>.
\<close>

definition same_name :: "string \<Rightarrow> string \<times> string \<Rightarrow> bool" where
  "same_name k p = (lower (fst p) = lower k)"

fun headers_set :: "string \<Rightarrow> string \<Rightarrow> (string \<times> string) list \<Rightarrow> (string \<times> string) list" where
  "headers_set k v [] = [(k, v)]"
| "headers_set k v (p # hs) =
     (if same_name k p then (k, v) # filter (\<lambda>q. \<not> same_name k q) hs
      else p # headers_set k v hs)"

definition has_newline :: "string \<Rightarrow> bool" where
  "has_newline v = (CHR 0x0A \<in> set v \<or> CHR 0x0D \<in> set v)"

text \<open>The \<^verbatim>\<open>for\<close> loop over \<^verbatim>\<open>request.args.items()\<close>.\<close>

fun set_all :: "(string \<times> string) list \<Rightarrow> (string \<times> string) list \<Rightarrow> py_error + (string \<times> string) list" where
  "set_all [] hs = Inr hs"
| "set_all ((k, v) # kvs) hs =
     (if has_newline v then Inl ValueError else set_all kvs (headers_set k v hs))"

text \<open>
  \<^verbatim>\<open>Response("Headers set")\<close> starts with the headers werkzeug gives a text body: the
  default Content-Type and the Content-Length of the eleven characters. The result is the
  headers of the response that is returned (status 200, body \<^verbatim>\<open>Headers set\<close>), or the
  exception.
\<close>

definition response_headers :: "(string \<times> string) list \<Rightarrow> py_error + (string \<times> string) list" where
  "response_headers query_args =
     set_all (multidict_items query_args)
       [(''Content-Type'', ''text/html; charset=utf-8''), (''Content-Length'', ''11'')]"

subsection \<open>Example data\<close>

text \<open>A directory with a file of ten bytes and an empty file, used to run the handlers on
  concrete requests.\<close>

definition example_file :: fs_file where
  "example_file = make_file [0, 1, 2, 3, 4, 5, 6, 7, 8, 9] 0"

definition example_files :: "string \<rightharpoonup> fs_file" where
  "example_files = [''data.bin'' \<mapsto> example_file, ''empty.bin'' \<mapsto> make_file [] 0]"

definition example_date :: "int \<Rightarrow> string" where
  "example_date t = ''Thu, 01 Jan 1970 00:00:00 GMT''"

text \<open>
  A request with Content-Type \<^verbatim>\<open>application/json\<close>, the given body and the given outcome
  of parsing that body; and the \<open>data\<close> entry of a handler's \<open>response_map\<close>.
\<close>

definition json_request :: "string \<Rightarrow> json option \<Rightarrow> request" where
  "json_request body_bytes parsed =
     \<lparr>is_json = True, data = body_bytes, data_text = Some body_bytes, data_json = parsed,
      form = [], args = [],
      request_headers = [(''Content-Type'', ''application/json'')],
      remote_addr = ''127.0.0.1'', url = ''http://127.0.0.1:8080/put''\<rparr>"

definition response_data :: "py_error + (string \<times> json) list \<Rightarrow> json option" where
  "response_data r = (case r of Inl e \<Rightarrow> None | Inr response_map \<Rightarrow> map_of response_map ''data'')"

section \<open>Properties of the chunk generator\<close>

lemma take_take_drop:
  "k \<le> m \<Longrightarrow>
     take k xs @ take (m - length (take k xs)) (drop (length (take k xs)) xs) = take m xs"
proof (cases "k \<le> length xs")
  case True
  assume "k \<le> m"
  then have "take m xs = take (k + (m - k)) xs" by simp
  also have "\<dots> = take k xs @ take (m - k) (drop k xs)" by (rule take_add)
  finally show ?thesis using True by (simp add: min_def)
next
  case False
  assume "k \<le> m"
  with False show ?thesis by simp
qed

text \<open>The chunks of the loop, joined, are the next \<open>bytes_to_send\<close> bytes of the file from
  \<open>pos\<close>, or what is left of the file when it ends before that.\<close>

lemma send_loop_concat:
  "concat (send_loop f pos n) = take (nat n) (drop pos f)"
proof (induction f pos n rule: send_loop.induct)
  case (1 f pos n)
  show ?case
  proof (cases "n > 0")
    case False
    then show ?thesis by (simp add: send_loop.simps)
  next
    case True
    define k where "k = nat (min chunk_size n)"
    define c where "c = f_read f pos (min chunk_size n)"
    have ck: "c = take k (drop pos f)" by (simp add: c_def k_def f_read_def)
    have kpos: "0 < k" "k \<le> nat n" using True by (simp_all add: k_def chunk_size_def)
    show ?thesis
    proof (cases "c = []")
      case True
      with ck kpos have "drop pos f = []" by (cases "drop pos f") auto
      with True \<open>n > 0\<close> show ?thesis
        unfolding c_def by (subst send_loop.simps) simp
    next
      case False
      have IH: "concat (send_loop f (pos + length c) (n - int (length c)))
                 = take (nat (n - int (length c))) (drop (pos + length c) f)"
        using "1.IH" True False unfolding c_def by simp
      have natd: "nat (n - int (length c)) = nat n - length c" by arith
      have "concat (send_loop f pos n)
              = c @ concat (send_loop f (pos + length c) (n - int (length c)))"
        using True False unfolding c_def by (subst send_loop.simps) simp
      also have "\<dots> = c @ take (nat n - length c) (drop (length c) (drop pos f))"
        using IH natd by (simp add: add.commute)
      also have "\<dots> = take k (drop pos f)
                   @ take (nat n - length (take k (drop pos f)))
                       (drop (length (take k (drop pos f))) (drop pos f))"
        unfolding ck ..
      also have "\<dots> = take (nat n) (drop pos f)"
        using kpos by (intro take_take_drop) simp
      finally show ?thesis .
    qed
  qed
qed

lemma send_loop_chunk_bound:
  "list_all (\<lambda>c. c \<noteq> [] \<and> int (length c) \<le> chunk_size) (send_loop f pos n)"
proof (induction f pos n rule: send_loop.induct)
  case (1 f pos n)
  show ?case
  proof (cases "n > 0 \<and> f_read f pos (min chunk_size n) \<noteq> []")
    case False
    then show ?thesis by (subst send_loop.simps) auto
  next
    case True
    have "int (length (f_read f pos (min chunk_size n))) \<le> chunk_size"
      using True by (simp add: f_read_def chunk_size_def)
    with True "1.IH" show ?thesis by (subst send_loop.simps) simp
  qed
qed

lemma generate_seek_ok:
  assumes "0 \<le> start_byte" "start_byte < 2 ^ 63"
  shows "generate f start_byte content_length = (send_loop f (nat start_byte) content_length, None)"
  using assms by (simp add: generate_def f_seek_def)

lemma generate_seek_fails:
  assumes "start_byte < 0 \<or> 2 ^ 63 \<le> start_byte"
  shows "generate f start_byte content_length
           = ([], Some (if - (2 ^ 63) \<le> start_byte \<and> start_byte < 0 then OSError else ValueError))"
  using assms by (auto simp: generate_def f_seek_def)

text \<open>
  C10. Whatever the file holds when it is read, the generator run on a resolved range
  \<open>start_byte \<le> end_byte\<close> (the only ranges the handler streams), with
  \<open>content_length = end_byte - start_byte + 1\<close>, yields chunks of at most 64 KiB = 65536
  bytes each, none of them empty, and at most \<open>content_length\<close> bytes in all. It ends:
  \<open>send_loop\<close> is a total function, its termination proved with the measure
  \<open>bytes_to_send\<close>. When the seek succeeds (\<open>0 \<le> start_byte < 2 ^ 63\<close>) no exception is
  raised and the chunks, joined, are exactly the next \<open>content_length\<close> bytes of the file
  from \<open>start_byte\<close>, or all that is left of the file when it ends before that: the loop
  stops when the requested count is delivered or the read returns no data, and not before.
  When the seek fails the generator raises before the loop and yields nothing.
\<close>

theorem generate_chunks_bounded:
  assumes "start_byte \<le> end_byte"
    and "generate f start_byte (end_byte - start_byte + 1) = (chunks, err)"
  shows "list_all (\<lambda>c. c \<noteq> [] \<and> int (length c) \<le> 65536) chunks
         \<and> int (length (concat chunks)) \<le> end_byte - start_byte + 1
         \<and> (0 \<le> start_byte \<and> start_byte < 2 ^ 63 \<longrightarrow>
               err = None
               \<and> concat chunks
                   = take (nat (end_byte - start_byte + 1)) (drop (nat start_byte) f)
               \<and> int (length (concat chunks))
                   = min (end_byte - start_byte + 1) (int (length f - nat start_byte)))
         \<and> (start_byte < 0 \<or> 2 ^ 63 \<le> start_byte \<longrightarrow>
               chunks = []
               \<and> err = Some (if - (2 ^ 63) \<le> start_byte \<and> start_byte < 0
                             then OSError else ValueError))"
proof (cases "0 \<le> start_byte \<and> start_byte < 2 ^ 63")
  case True
  then have g: "generate f start_byte (end_byte - start_byte + 1)
                  = (send_loop f (nat start_byte) (end_byte - start_byte + 1), None)"
    by (simp add: generate_seek_ok)
  with assms(2) have c: "chunks = send_loop f (nat start_byte) (end_byte - start_byte + 1)"
    and e: "err = None" by simp_all
  have j: "concat chunks = take (nat (end_byte - start_byte + 1)) (drop (nat start_byte) f)"
    unfolding c by (rule send_loop_concat)
  have b: "list_all (\<lambda>c. c \<noteq> [] \<and> int (length c) \<le> chunk_size) chunks"
    unfolding c by (rule send_loop_chunk_bound)
  have "length (concat chunks)
          = min (length f - nat start_byte) (nat (end_byte - start_byte + 1))"
    by (simp add: j)
  then have l: "int (length (concat chunks))
             = min (end_byte - start_byte + 1) (int (length f - nat start_byte))"
    using assms(1) by arith
  from b e j l True show ?thesis by (simp add: chunk_size_def)
next
  case False
  then have s: "start_byte < 0 \<or> 2 ^ 63 \<le> start_byte" by auto
  from generate_seek_fails [OF s] assms(2)
  have "chunks = []"
    and "err = Some (if - (2 ^ 63) \<le> start_byte \<and> start_byte < 0 then OSError else ValueError)"
    by simp_all
  with assms(1) False show ?thesis by simp
qed

theorem generate_chunks_bounded_witness:
  "generate [0, 1, 2, 3, 4, 5, 6, 7, 8, 9] 2 (5 - 2 + 1) = ([[2, 3, 4, 5]], None)
   \<and> concat [[2, 3, 4, 5 :: byte]] = take 4 (drop 2 [0, 1, 2, 3, 4, 5, 6, 7, 8, 9])
   \<and> generate [0, 1, 2, 3 :: byte] 2 (5 - 2 + 1) = ([[2, 3]], None)
   \<and> int (length (concat [[2, 3 :: byte]])) = min (5 - 2 + 1) (int (4 - 2))
   \<and> generate [0, 1, 2, 3, 4, 5, 6, 7, 8, 9] (- 10) (9 - (- 10) + 1) = ([], Some OSError)"
proof -
  let ?f = "[0, 1, 2, 3, 4, 5, 6, 7, 8, 9] :: byte list"
  have a: "generate ?f 2 (5 - 2 + 1) = ([[2, 3, 4, 5]], None)"
    by code_simp
  have b: "generate [0, 1, 2, 3 :: byte] 2 (5 - 2 + 1) = ([[2, 3]], None)"
    by code_simp
  have le: "(2::int) \<le> 5" by simp
  from generate_chunks_bounded [OF le a]
  have a': "concat [[2, 3, 4, 5 :: byte]] = take 4 (drop 2 ?f)"
    by simp
  from generate_chunks_bounded [OF le b]
  have b': "int (length (concat [[2, 3 :: byte]])) = min (5 - 2 + 1) (int (4 - 2))"
    by simp
  have le': "(- 10 :: int) \<le> 9" by simp
  have p: "generate ?f (- 10) (9 - (- 10) + 1)
             = (fst (generate ?f (- 10) (9 - (- 10) + 1)), snd (generate ?f (- 10) (9 - (- 10) + 1)))"
    by simp
  note n = generate_chunks_bounded [OF le' p, THEN conjunct2, THEN conjunct2, THEN conjunct2]
  have "(- 10 :: int) < 0 \<or> 2 ^ 63 \<le> (- 10 :: int)" by simp
  from n [THEN mp, OF this]
  have "fst (generate ?f (- 10) (9 - (- 10) + 1)) = []"
    and "snd (generate ?f (- 10) (9 - (- 10) + 1)) = Some OSError"
    by simp_all
  then have c: "generate ?f (- 10) (9 - (- 10) + 1) = ([], Some OSError)"
    by (simp add: prod_eq_iff)
  from a a' b b' c show ?thesis by blast
qed

section \<open>Properties of the string and integer conversions\<close>

lemma is_digit_digit_char: "d < 10 \<Longrightarrow> is_digit (digit_char d)"
  by (simp add: is_digit_def digit_char_def)

lemma digit_val_digit_char: "d < 10 \<Longrightarrow> digit_val (digit_char d) = d"
  by (simp add: digit_val_def digit_char_def)

lemma str_nat_digits: "list_all is_digit (str_nat n)"
proof (induction n rule: str_nat.induct)
  case (1 n)
  show ?case
  proof (cases "n < 10")
    case True
    then show ?thesis by (subst str_nat.simps) (simp add: is_digit_digit_char)
  next
    case False
    with "1.IH" show ?thesis by (subst str_nat.simps) (simp add: is_digit_digit_char)
  qed
qed

lemma str_nat_nonempty: "str_nat n \<noteq> []"
  by (subst str_nat.simps) simp

lemma digits_val_snoc: "digits_val (s @ [c]) = digits_val s * 10 + digit_val c"
  by (simp add: digits_val_def)

lemma digits_val_str_nat: "digits_val (str_nat n) = n"
proof (induction n rule: str_nat.induct)
  case (1 n)
  show ?case
  proof (cases "n < 10")
    case True
    then show ?thesis by (subst str_nat.simps) (simp add: digits_val_def digit_val_digit_char)
  next
    case False
    with "1.IH" show ?thesis
      by (subst str_nat.simps) (simp add: digits_val_snoc digit_val_digit_char)
  qed
qed

lemma is_digit_range: "is_digit c \<Longrightarrow> (48::nat) \<le> of_char c \<and> (of_char c :: nat) \<le> 57"
  by (simp add: is_digit_def)

lemma is_digit_other:
  assumes "is_digit c"
  shows "c \<noteq> CHR ''-''" "c \<noteq> CHR ''_''" "c \<noteq> CHR ''+''" "c \<noteq> CHR ''b''" "\<not> py_isspace c"
proof -
  note r = is_digit_range [OF assms]
  show "c \<noteq> CHR ''-''"
  proof
    assume "c = CHR ''-''"
    then have "(of_char c :: nat) = 45" by simp
    with r show False by simp
  qed
  show "c \<noteq> CHR ''_''"
  proof
    assume "c = CHR ''_''"
    then have "(of_char c :: nat) = 95" by simp
    with r show False by simp
  qed
  show "c \<noteq> CHR ''+''"
  proof
    assume "c = CHR ''+''"
    then have "(of_char c :: nat) = 43" by simp
    with r show False by simp
  qed
  show "c \<noteq> CHR ''b''"
  proof
    assume "c = CHR ''b''"
    then have "(of_char c :: nat) = 98" by simp
    with r show False by simp
  qed
  show "\<not> py_isspace c"
    using r unfolding py_isspace_def by arith
qed

lemma digits_free:
  assumes "list_all is_digit s"
  shows "CHR ''-'' \<notin> set s" "CHR ''_'' \<notin> set s" "CHR ''b'' \<notin> set s"
proof -
  have d: "\<forall>c\<in>set s. is_digit c" using assms by (simp add: list_all_iff)
  show "CHR ''-'' \<notin> set s" using d is_digit_other(1) by blast
  show "CHR ''_'' \<notin> set s" using d is_digit_other(2) by blast
  show "CHR ''b'' \<notin> set s" using d is_digit_other(4) by blast
qed

lemma split_on_absent: "sep \<notin> set s \<Longrightarrow> split_on sep s = [s]"
  by (induction s) auto

lemma split_on_first: "sep \<notin> set s \<Longrightarrow> split_on sep (s @ sep # t) = s # split_on sep t"
  by (induction s) auto

lemma py_strip_digits:
  assumes "list_all is_digit s"
  shows "py_strip s = s"
proof -
  have "\<forall>c\<in>set s. is_digit c" using assms by (simp add: list_all_iff)
  then have nosp: "\<forall>c\<in>set s. \<not> py_isspace c"
    using is_digit_other(5) by blast
  have a: "dropWhile py_isspace s = s"
    using nosp by (cases s) auto
  have "\<forall>c\<in>set (rev s). \<not> py_isspace c" using nosp by simp
  then have b: "dropWhile py_isspace (rev s) = rev s"
    by (cases "rev s") auto
  show ?thesis by (simp add: py_strip_def a b)
qed

lemma py_int_digits_ok:
  assumes "list_all is_digit s" "s \<noteq> []" "length s \<le> 4300"
  shows "py_int_digits s = Some (digits_val s)"
  using assms
  by (simp add: py_int_digits_def split_on_absent digits_free digit_group_def
      int_max_str_digits_def)

lemma py_int_digit_string:
  assumes "list_all is_digit s" "s \<noteq> []" "length s \<le> 4300"
  shows "py_int s = Some (int (digits_val s))"
proof -
  obtain c r where s: "s = c # r" using assms(2) by (cases s) auto
  have "is_digit c" using assms(1) s by simp
  then have "c \<noteq> CHR ''-''" "c \<noteq> CHR ''+''" using is_digit_other by auto
  then show ?thesis
    using py_int_digits_ok [OF assms] py_strip_digits [OF assms(1)] s
    by (simp add: py_int_def)
qed

lemma str_nat_length: "n < 10 ^ k \<Longrightarrow> length (str_nat n) \<le> max 1 k"
proof (induction n arbitrary: k rule: str_nat.induct)
  case (1 n)
  show ?case
  proof (cases "n < 10")
    case True
    then show ?thesis by (subst str_nat.simps) simp
  next
    case False
    with "1.prems" obtain k' where k: "k = Suc k'"
      by (cases k) auto
    have "n div 10 < 10 ^ k'"
      using "1.prems" k by (simp add: less_mult_imp_div_less mult.commute)
    from "1.IH" [OF False this] have "length (str_nat (n div 10)) \<le> max 1 k'" .
    moreover have "0 < k'" using False "1.prems" k by (cases k') auto
    ultimately show ?thesis using False k by (subst str_nat.simps) simp
  qed
qed

text \<open>A number that fits a file offset has at most 19 digits, far below the limit.\<close>

lemma str_nat_offset_length: "n < 2 ^ 63 \<Longrightarrow> length (str_nat n) \<le> 4300"
proof -
  assume "n < 2 ^ 63"
  then have "n < 10 ^ 19" by simp
  from str_nat_length [OF this] show ?thesis by simp
qed

lemma py_int_str_nat: "n < 2 ^ 63 \<Longrightarrow> py_int (str_nat n) = Some (int n)"
  using py_int_digit_string [OF str_nat_digits str_nat_nonempty str_nat_offset_length]
  by (simp add: digits_val_str_nat)

lemma str_remove_absent:
  "old \<noteq> [] \<Longrightarrow> hd old \<notin> set s \<Longrightarrow> str_remove old s = s"
proof (induction s)
  case Nil
  then show ?case by (subst str_remove.simps) simp
next
  case (Cons c cs)
  have "take (length old) (c # cs) \<noteq> old"
  proof
    assume "take (length old) (c # cs) = old"
    then have "hd old = c" using Cons.prems(1) by (cases old) auto
    with Cons.prems(2) show False by simp
  qed
  with Cons show ?case by (subst str_remove.simps) simp
qed

lemma str_remove_prefix:
  "old \<noteq> [] \<Longrightarrow> str_remove old (old @ s) = str_remove old s"
  by (subst str_remove.simps) simp

lemma str_remove_bytes:
  "CHR ''b'' \<notin> set s \<Longrightarrow> str_remove ''bytes='' (''bytes='' @ s) = s"
  using str_remove_prefix [of "''bytes=''" s] str_remove_absent [of "''bytes=''" s] by simp

lemma str_int_nonneg: "0 \<le> i \<Longrightarrow> str_int i = str_nat (nat i)"
  by (simp add: str_int_def)

lemma parse_range_explicit:
  assumes "0 \<le> a" "0 \<le> b" "a < 2 ^ 63" "b < 2 ^ 63"
  shows "parse_range total_size (''bytes='' @ str_int a @ ''-'' @ str_int b)
         = (a, if b \<ge> total_size then total_size - 1 else b, 206)"
proof -
  let ?A = "str_nat (nat a)" and ?B = "str_nat (nat b)"
  have dA: "list_all is_digit ?A" and dB: "list_all is_digit ?B" by (rule str_nat_digits)+
  have nb: "CHR ''b'' \<notin> set (?A @ CHR ''-'' # ?B)"
    using digits_free(3) [OF dA] digits_free(3) [OF dB] by simp
  have sp: "split_on (CHR ''-'') (?A @ CHR ''-'' # ?B) = [?A, ?B]"
    using split_on_first [OF digits_free(1) [OF dA]] split_on_absent [OF digits_free(1) [OF dB]]
    by simp
  have h: "''bytes='' @ str_int a @ ''-'' @ str_int b = ''bytes='' @ (?A @ CHR ''-'' # ?B)"
    using assms by (simp add: str_int_nonneg)
  have "parse_range total_size (''bytes='' @ (?A @ CHR ''-'' # ?B))
         = (a, if b \<ge> total_size then total_size - 1 else b, 206)"
    unfolding parse_range_def str_remove_bytes [OF nb] sp
    using assms by (simp add: str_nat_nonempty py_int_str_nat)
  then show ?thesis unfolding h .
qed

lemma parse_range_suffix:
  assumes "0 \<le> n" "n < 2 ^ 63"
  shows "parse_range total_size (''bytes=-'' @ str_int n)
         = (total_size - n, total_size - 1, 206)"
proof -
  let ?N = "str_nat (nat n)"
  have dN: "list_all is_digit ?N" by (rule str_nat_digits)
  have nb: "CHR ''b'' \<notin> set (CHR ''-'' # ?N)"
    using digits_free(3) [OF dN] by simp
  have sp: "split_on (CHR ''-'') (CHR ''-'' # ?N) = [[], ?N]"
    using split_on_absent [OF digits_free(1) [OF dN]] by simp
  have h: "''bytes=-'' @ str_int n = ''bytes='' @ (CHR ''-'' # ?N)"
    using assms by (simp add: str_int_nonneg)
  have "parse_range total_size (''bytes='' @ (CHR ''-'' # ?N))
         = (total_size - n, total_size - 1, 206)"
    unfolding parse_range_def str_remove_bytes [OF nb] sp
    using assms by (simp add: str_nat_nonempty py_int_str_nat)
  then show ?thesis unfolding h .
qed



section \<open>Properties of the range handling and of the handler\<close>

lemma content_bound: "length (content file) < 2 ^ 63"
  using Rep_fs_file [of "file"] by (simp add: content_def)

lemma content_make_file:
  "length bytes < 2 ^ 63 \<Longrightarrow> content (make_file bytes mtime) = bytes"
  by (simp add: content_def make_file_def Abs_fs_file_inverse)

lemma example_file_content: "content example_file = [0, 1, 2, 3, 4, 5, 6, 7, 8, 9]"
  by (simp add: example_file_def content_make_file)

lemma example_files_data: "example_files ''data.bin'' = Some example_file"
  by (simp add: example_files_def)

lemma example_files_empty: "example_files ''empty.bin'' = Some (make_file [] 0)"
  by (simp add: example_files_def)

lemma range_handling_end:
  "range_handling total_size range_header = (start_byte, end_byte, status_code) \<Longrightarrow>
     end_byte \<le> total_size - 1"
  by (auto simp: range_handling_def parse_range_def split: option.splits list.splits if_splits)

lemma serve_file_streamed:
  assumes "files filename = Some file"
    and "range_handling (int (length (content file))) range_header = (start_byte, end_byte, status_code)"
    and "start_byte \<le> end_byte"
  shows "status (serve_file http_date files filename range_header arg) = status_code"
    and "body (serve_file http_date files filename range_header arg)
           = (case generate (content file) start_byte (end_byte - start_byte + 1) of
                (chunks, err) \<Rightarrow> Streamed chunks err)"
    and "headers (serve_file http_date files filename range_header arg) ''Content-Length''
           = (if arg = Some ''true'' then None else Some (str_int (end_byte - start_byte + 1)))"
    and "headers (serve_file http_date files filename range_header arg) ''Content-Range''
           = (if status_code = 206
              then Some (''bytes '' @ str_int start_byte @ ''-'' @ str_int end_byte
                         @ ''/'' @ str_int (int (length (content file))))
              else None)"
  using assms by (simp_all add: serve_file_def Let_def)

lemma serve_file_not_satisfiable:
  assumes "files filename = Some file"
    and "range_handling (int (length (content file))) range_header = (start_byte, end_byte, status_code)"
    and "start_byte > end_byte"
  shows "serve_file http_date files filename range_header arg
           = \<lparr>status = 416, headers = Map.empty, body = Fixed ''Requested Range Not Satisfiable''\<rparr>"
  using assms by (simp add: serve_file_def Let_def)

lemma generate_in_file:
  assumes "0 \<le> start_byte" "start_byte \<le> end_byte" "end_byte < int (length f)"
    and "length f < 2 ^ 63"
  shows "\<exists>chunks. generate f start_byte (end_byte - start_byte + 1) = (chunks, None)
           \<and> concat chunks = take (nat (end_byte - start_byte + 1)) (drop (nat start_byte) f)
           \<and> int (length (concat chunks)) = end_byte - start_byte + 1"
proof -
  have "start_byte < 2 ^ 63" using assms(2-4) by simp
  from generate_seek_ok [OF assms(1) this] assms show ?thesis
    by (simp add: send_loop_concat)
qed

text \<open>The handler on the ten-byte file of the example directory.\<close>

lemma serve_example_streamed:
  assumes "range_handling 10 range_header = (start_byte, end_byte, status_code)"
    and "start_byte \<le> end_byte"
  shows "status (serve_file example_date example_files ''data.bin'' range_header arg) = status_code"
    and "body (serve_file example_date example_files ''data.bin'' range_header arg)
           = (case generate [0, 1, 2, 3, 4, 5, 6, 7, 8, 9] start_byte (end_byte - start_byte + 1) of
                (chunks, err) \<Rightarrow> Streamed chunks err)"
    and "headers (serve_file example_date example_files ''data.bin'' range_header arg)
           ''Content-Length''
           = (if arg = Some ''true'' then None else Some (str_int (end_byte - start_byte + 1)))"
    and "headers (serve_file example_date example_files ''data.bin'' range_header arg)
           ''Content-Range''
           = (if status_code = 206
              then Some (''bytes '' @ str_int start_byte @ ''-'' @ str_int end_byte
                         @ ''/'' @ str_int 10)
              else None)"
proof -
  have rh: "range_handling (int (length (content example_file))) range_header
              = (start_byte, end_byte, status_code)"
    using assms(1) by (simp add: example_file_content)
  note sf = serve_file_streamed
      [where files = example_files and filename = "''data.bin''" and http_date = example_date
         and arg = arg, OF example_files_data rh assms(2)]
  show "status (serve_file example_date example_files ''data.bin'' range_header arg) = status_code"
    by (rule sf(1))
  show "body (serve_file example_date example_files ''data.bin'' range_header arg)
           = (case generate [0, 1, 2, 3, 4, 5, 6, 7, 8, 9] start_byte (end_byte - start_byte + 1) of
                (chunks, err) \<Rightarrow> Streamed chunks err)"
    using sf(2) by (simp add: example_file_content)
  show "headers (serve_file example_date example_files ''data.bin'' range_header arg)
           ''Content-Length''
           = (if arg = Some ''true'' then None else Some (str_int (end_byte - start_byte + 1)))"
    by (rule sf(3))
  show "headers (serve_file example_date example_files ''data.bin'' range_header arg)
           ''Content-Range''
           = (if status_code = 206
              then Some (''bytes '' @ str_int start_byte @ ''-'' @ str_int end_byte
                         @ ''/'' @ str_int 10)
              else None)"
    using sf(4) by (simp add: example_file_content)
qed

lemma serve_example_not_satisfiable:
  assumes "range_handling 10 range_header = (start_byte, end_byte, status_code)"
    and "start_byte > end_byte"
  shows "serve_file example_date example_files ''data.bin'' range_header arg
           = \<lparr>status = 416, headers = Map.empty, body = Fixed ''Requested Range Not Satisfiable''\<rparr>"
proof -
  have rh: "range_handling (int (length (content example_file))) range_header
              = (start_byte, end_byte, status_code)"
    using assms(1) by (simp add: example_file_content)
  show ?thesis
    by (rule serve_file_not_satisfiable
        [where files = example_files and filename = "''data.bin''", OF example_files_data rh assms(2)])
qed

lemma str_int_examples:
  "str_int 1 = ''1''" "str_int 2 = ''2''" "str_int 3 = ''3''" "str_int 4 = ''4''"
  "str_int 5 = ''5''" "str_int 7 = ''7''" "str_int 9 = ''9''" "str_int 10 = ''10''"
  "str_int 11 = ''11''" "str_int 20 = ''20''" "str_int (- 1) = ''-1''" "str_int (- 10) = ''-10''"
  by code_simp+



section \<open>The claims about \<^verbatim>\<open>serve_file\<close>\<close>

text \<open>
  C1. For an existing file and a Range header \<^verbatim>\<open>bytes=A-B\<close> with
  \<open>0 \<le> A \<le> B < total_size\<close> (the two numbers written in decimal, as \<^verbatim>\<open>str\<close> writes
  them), the response has status 206, its Content-Range header is
  \<^verbatim>\<open>bytes A-B/total_size\<close>, the generator ends without an exception, and its chunks,
  joined, are the bytes of the file from index \<open>A\<close> to index \<open>B\<close> inclusive:
  \<open>B - A + 1\<close> bytes, taken after dropping the first \<open>A\<close>.
\<close>

theorem serve_file_explicit_range:
  assumes "files filename = Some file"
    and "0 \<le> a" and "a \<le> b" and "b < int (length (content file))"
  shows "status (serve_file http_date files filename
                   (Some (''bytes='' @ str_int a @ ''-'' @ str_int b)) arg) = 206
       \<and> headers (serve_file http_date files filename
                   (Some (''bytes='' @ str_int a @ ''-'' @ str_int b)) arg) ''Content-Range''
           = Some (''bytes '' @ str_int a @ ''-'' @ str_int b @ ''/''
                   @ str_int (int (length (content file))))
       \<and> (\<exists>chunks. body (serve_file http_date files filename
                   (Some (''bytes='' @ str_int a @ ''-'' @ str_int b)) arg) = Streamed chunks None
             \<and> concat chunks = take (nat (b - a + 1)) (drop (nat a) (content file))
             \<and> int (length (concat chunks)) = b - a + 1)"
proof -
  let ?h = "''bytes='' @ str_int a @ ''-'' @ str_int b"
  let ?total = "int (length (content file))"
  have bound: "?total < 2 ^ 63" using content_bound [of "file"] by simp
  have "parse_range ?total ?h = (a, b, 206)"
    using parse_range_explicit [of a b ?total] assms bound by simp
  then have rh: "range_handling ?total (Some ?h) = (a, b, 206)"
    by (simp add: range_handling_def)
  note sf = serve_file_streamed [where files = files and filename = filename, OF assms(1) rh assms(3)]
  obtain chunks where g: "generate (content file) a (b - a + 1) = (chunks, None)"
    and c: "concat chunks = take (nat (b - a + 1)) (drop (nat a) (content file))"
    and l: "int (length (concat chunks)) = b - a + 1"
    using generate_in_file [OF assms(2-4) content_bound] by blast
  have "body (serve_file http_date files filename (Some ?h) arg) = Streamed chunks None"
    using sf(2) g by simp
  with c l sf(1) sf(4) show ?thesis by simp
qed

theorem serve_file_explicit_range_witness:
  "status (serve_file example_date example_files ''data.bin'' (Some ''bytes=2-5'') None) = 206
   \<and> headers (serve_file example_date example_files ''data.bin'' (Some ''bytes=2-5'') None)
         ''Content-Range'' = Some ''bytes 2-5/10''
   \<and> (\<exists>chunks. body (serve_file example_date example_files ''data.bin'' (Some ''bytes=2-5'') None)
                   = Streamed chunks None
         \<and> concat chunks = [2, 3, 4, 5])"
proof -
  note h1 = example_files_data
  have h2: "(0::int) \<le> 2" and h3: "(2::int) \<le> 5" by simp_all
  have h4: "5 < int (length (content example_file))" by (simp add: example_file_content)
  from serve_file_explicit_range
      [where files = example_files and filename = "''data.bin''"
         and http_date = example_date and arg = None, OF h1 h2 h3 h4]
  show ?thesis by (auto simp: str_int_examples example_file_content)
qed

text \<open>
  C2: the handler on a suffix range longer than the file. For a file of ten bytes and
  \<^verbatim>\<open>Range: bytes=-20\<close> the range handling gives \<open>start_byte = -10\<close>, \<open>end_byte = 9\<close>;
  the guard \<open>start_byte > end_byte\<close> does not fire, the response is returned with status
  206, \<^verbatim>\<open>Content-Range: bytes -10-9/10\<close> and \<^verbatim>\<open>Content-Length: 20\<close>, and the generator
  raises \<^verbatim>\<open>OSError\<close> at \<^verbatim>\<open>f.seek(-10)\<close> before it yields a chunk.
\<close>

theorem serve_file_negative_seek:
  "range_handling 10 (Some ''bytes=-20'') = (- 10, 9, 206)
   \<and> status (serve_file example_date example_files ''data.bin'' (Some ''bytes=-20'') None) = 206
   \<and> headers (serve_file example_date example_files ''data.bin'' (Some ''bytes=-20'') None)
         ''Content-Range'' = Some ''bytes -10-9/10''
   \<and> headers (serve_file example_date example_files ''data.bin'' (Some ''bytes=-20'') None)
         ''Content-Length'' = Some ''20''
   \<and> body (serve_file example_date example_files ''data.bin'' (Some ''bytes=-20'') None)
       = Streamed [] (Some OSError)"
proof -
  have rh: "range_handling 10 (Some ''bytes=-20'') = (- 10, 9, 206)" by code_simp
  have g: "generate [0, 1, 2, 3, 4, 5, 6, 7, 8, 9] (- 10) 20 = ([], Some OSError)" by code_simp
  have "(- 10 :: int) \<le> 9" by simp
  note e = serve_example_streamed [OF rh this, of None]
  from e rh g show ?thesis by (simp add: str_int_examples)
qed

text \<open>
  C3, as amended. For an existing file and \<^verbatim>\<open>Range: bytes=-N\<close> with
  \<open>0 < N \<le> total_size\<close>, the resolved range is \<open>start = total_size - N\<close>,
  \<open>end = total_size - 1\<close> (as the Content-Range header reports it), the status is 206 and
  the chunks, joined, are the last \<open>N\<close> bytes of the file.
\<close>

theorem serve_file_suffix_range:
  assumes "files filename = Some file"
    and "0 < n" and "n \<le> int (length (content file))"
  shows "status (serve_file http_date files filename (Some (''bytes=-'' @ str_int n)) arg) = 206
       \<and> headers (serve_file http_date files filename (Some (''bytes=-'' @ str_int n)) arg)
             ''Content-Range''
           = Some (''bytes '' @ str_int (int (length (content file)) - n) @ ''-''
                   @ str_int (int (length (content file)) - 1) @ ''/''
                   @ str_int (int (length (content file))))
       \<and> (\<exists>chunks. body (serve_file http_date files filename (Some (''bytes=-'' @ str_int n)) arg)
                       = Streamed chunks None
             \<and> concat chunks = drop (length (content file) - nat n) (content file)
             \<and> int (length (concat chunks)) = n)"
proof -
  let ?h = "''bytes=-'' @ str_int n"
  let ?total = "int (length (content file))"
  have bound: "?total < 2 ^ 63" using content_bound [of "file"] by simp
  have "parse_range ?total ?h = (?total - n, ?total - 1, 206)"
    using parse_range_suffix [of n ?total] assms bound by simp
  then have rh: "range_handling ?total (Some ?h) = (?total - n, ?total - 1, 206)"
    by (simp add: range_handling_def)
  have le: "?total - n \<le> ?total - 1" using assms(2) by simp
  note sf = serve_file_streamed [where files = files and filename = filename, OF assms(1) rh le]
  have r0: "0 \<le> ?total - n" and r1: "?total - 1 < ?total" using assms(3) by simp_all
  obtain chunks where g: "generate (content file) (?total - n) (?total - 1 - (?total - n) + 1) = (chunks, None)"
    and c: "concat chunks = take (nat (?total - 1 - (?total - n) + 1)) (drop (nat (?total - n)) (content file))"
    and l: "int (length (concat chunks)) = ?total - 1 - (?total - n) + 1"
    using generate_in_file [OF r0 le r1 content_bound] by blast
  have b: "body (serve_file http_date files filename (Some ?h) arg) = Streamed chunks None"
    using sf(2) g by simp
  have nn: "nat (?total - n) = length (content file) - nat n" using assms(2,3) by arith
  have c': "concat chunks = drop (length (content file) - nat n) (content file)"
    using c assms(2,3) by (simp add: nn)
  have l': "int (length (concat chunks)) = n" using l by simp
  from sf(1) sf(4) b c' l' show ?thesis by simp
qed

theorem serve_file_suffix_range_witness:
  "status (serve_file example_date example_files ''data.bin'' (Some ''bytes=-3'') None) = 206
   \<and> headers (serve_file example_date example_files ''data.bin'' (Some ''bytes=-3'') None)
         ''Content-Range'' = Some ''bytes 7-9/10''
   \<and> (\<exists>chunks. body (serve_file example_date example_files ''data.bin'' (Some ''bytes=-3'') None)
                   = Streamed chunks None
         \<and> concat chunks = [7, 8, 9])"
proof -
  note h1 = example_files_data
  have h2: "(0::int) < 3" by simp
  have h3: "3 \<le> int (length (content example_file))" by (simp add: example_file_content)
  from serve_file_suffix_range
      [where files = example_files and filename = "''data.bin''"
         and http_date = example_date and arg = None, OF h1 h2 h3]
  show ?thesis by (auto simp: str_int_examples example_file_content)
qed

text \<open>
  C3 as stated fails for \<open>N > total_size\<close>: on the file of ten bytes,
  \<^verbatim>\<open>Range: bytes=-11\<close> resolves to \<open>start = -1\<close>, and the body is no byte span at all: the
  generator raises at the seek and yields nothing.
\<close>

theorem serve_file_suffix_longer_than_file:
  "status (serve_file example_date example_files ''data.bin'' (Some ''bytes=-11'') None) = 206
   \<and> headers (serve_file example_date example_files ''data.bin'' (Some ''bytes=-11'') None)
         ''Content-Range'' = Some ''bytes -1-9/10''
   \<and> body (serve_file example_date example_files ''data.bin'' (Some ''bytes=-11'') None)
       = Streamed [] (Some OSError)"
proof -
  have rh: "range_handling 10 (Some ''bytes=-11'') = (- 1, 9, 206)" by code_simp
  have g: "generate [0, 1, 2, 3, 4, 5, 6, 7, 8, 9] (- 1) 11 = ([], Some OSError)" by code_simp
  have "(- 1 :: int) \<le> 9" by simp
  note e = serve_example_streamed [OF rh this, of None]
  from e g show ?thesis by (simp add: str_int_examples)
qed

text \<open>
  C4: the handler on malformed Range headers. \<^verbatim>\<open>bytes=xyz\<close> is ignored and the whole
  file is served with status 200. \<^verbatim>\<open>bytes=5-abc\<close> is not: \<open>start_byte = 5\<close> is assigned
  before \<^verbatim>\<open>int('abc')\<close> raises, so the ten-byte file is served from byte 5 on, with status
  200 and \<^verbatim>\<open>Content-Length: 5\<close>; and \<^verbatim>\<open>bytes=10-abc\<close> leaves \<open>start_byte = 10 > 9\<close>, which
  is answered with 416.
\<close>

theorem serve_file_malformed_end_keeps_start:
  "range_handling 10 (Some ''bytes=5-abc'') = (5, 9, 200)
   \<and> status (serve_file example_date example_files ''data.bin'' (Some ''bytes=5-abc'') None) = 200
   \<and> headers (serve_file example_date example_files ''data.bin'' (Some ''bytes=5-abc'') None)
         ''Content-Length'' = Some ''5''
   \<and> body (serve_file example_date example_files ''data.bin'' (Some ''bytes=5-abc'') None)
       = Streamed [[5, 6, 7, 8, 9]] None
   \<and> status (serve_file example_date example_files ''data.bin'' (Some ''bytes=10-abc'') None) = 416
   \<and> body (serve_file example_date example_files ''data.bin'' (Some ''bytes=10-abc'') None)
       = Fixed ''Requested Range Not Satisfiable''
   \<and> body (serve_file example_date example_files ''data.bin'' (Some ''bytes=xyz'') None)
       = Streamed [[0, 1, 2, 3, 4, 5, 6, 7, 8, 9]] None"
proof -
  have rh1: "range_handling 10 (Some ''bytes=5-abc'') = (5, 9, 200)" by code_simp
  have g1: "generate [0, 1, 2, 3, 4, 5, 6, 7, 8, 9] 5 5 = ([[5, 6, 7, 8, 9]], None)" by code_simp
  have "(5::int) \<le> 9" by simp
  note e1 = serve_example_streamed [OF rh1 this, of None]
  have rh2: "range_handling 10 (Some ''bytes=10-abc'') = (10, 9, 200)" by code_simp
  have "(10::int) > 9" by simp
  note e2 = serve_example_not_satisfiable [OF rh2 this, of None]
  have rh3: "range_handling 10 (Some ''bytes=xyz'') = (0, 9, 200)" by code_simp
  have g3: "generate [0, 1, 2, 3, 4, 5, 6, 7, 8, 9] 0 10 = ([[0, 1, 2, 3, 4, 5, 6, 7, 8, 9]], None)"
    by code_simp
  have "(0::int) \<le> 9" by simp
  note e3 = serve_example_streamed [OF rh3 this, of None]
  from rh1 e1 g1 e2 e3 g3 show ?thesis by (simp add: str_int_examples)
qed

text \<open>
  C5, as amended. Without a Range header, an existing file of zero bytes is answered
  with 416 (Requested Range Not Satisfiable) and nothing is streamed, because
  \<open>start_byte = 0 > end_byte = -1\<close>; a file that is not empty is streamed with status 200,
  in at least one chunk, and the chunks joined are the whole file.
\<close>

theorem serve_file_no_range:
  assumes "files filename = Some file"
  shows "(if content file = []
          then serve_file http_date files filename None arg
                 = \<lparr>status = 416, headers = Map.empty,
                    body = Fixed ''Requested Range Not Satisfiable''\<rparr>
          else status (serve_file http_date files filename None arg) = 200
               \<and> (\<exists>chunks. body (serve_file http_date files filename None arg)
                              = Streamed chunks None
                     \<and> chunks \<noteq> [] \<and> concat chunks = content file))"
proof (cases "content file = []")
  case True
  have rh: "range_handling (int (length (content file))) None = (0, - 1, 200)"
    using True by (simp add: range_handling_def)
  have "(0::int) > - 1" by simp
  from serve_file_not_satisfiable
      [where files = files and filename = filename, OF assms rh this]
  show ?thesis using True by simp
next
  case False
  let ?total = "int (length (content file))"
  have rh: "range_handling ?total None = (0, ?total - 1, 200)"
    by (simp add: range_handling_def)
  have le: "0 \<le> ?total - 1" using False by (cases "content file") auto
  note sf = serve_file_streamed [where files = files and filename = filename, OF assms rh le]
  obtain chunks where g: "generate (content file) 0 (?total - 1 - 0 + 1) = (chunks, None)"
    and c: "concat chunks = take (nat (?total - 1 - 0 + 1)) (drop (nat 0) (content file))"
    using generate_in_file [of 0 "?total - 1" "content file"] le content_bound [of "file"] by auto
  have b: "body (serve_file http_date files filename None arg) = Streamed chunks None"
    using sf(2) g by simp
  have c': "concat chunks = content file" using c by simp
  then have "chunks \<noteq> []" using False by auto
  with sf(1) b c' False show ?thesis by simp
qed

theorem serve_file_no_range_witness:
  "status (serve_file example_date example_files ''data.bin'' None None) = 200
   \<and> (\<exists>chunks. body (serve_file example_date example_files ''data.bin'' None None)
                  = Streamed chunks None
         \<and> chunks \<noteq> [] \<and> concat chunks = [0, 1, 2, 3, 4, 5, 6, 7, 8, 9])
   \<and> status (serve_file example_date example_files ''empty.bin'' None None) = 416
   \<and> body (serve_file example_date example_files ''empty.bin'' None None)
       = Fixed ''Requested Range Not Satisfiable''"
proof -
  note h1 = example_files_data
  note h2 = example_files_empty
  from serve_file_no_range
      [where files = example_files and filename = "''data.bin''"
         and http_date = example_date and arg = None, OF h1]
  have a: "status (serve_file example_date example_files ''data.bin'' None None) = 200
   \<and> (\<exists>chunks. body (serve_file example_date example_files ''data.bin'' None None)
                  = Streamed chunks None
         \<and> chunks \<noteq> [] \<and> concat chunks = [0, 1, 2, 3, 4, 5, 6, 7, 8, 9])"
    by (simp add: example_file_content)
  from serve_file_no_range
      [where files = example_files and filename = "''empty.bin''"
         and http_date = example_date and arg = None, OF h2]
  have b: "serve_file example_date example_files ''empty.bin'' None None
             = \<lparr>status = 416, headers = Map.empty,
                body = Fixed ''Requested Range Not Satisfiable''\<rparr>"
    by (simp add: content_make_file)
  from a b show ?thesis by simp
qed

text \<open>
  C5 as stated fails: the empty file of the example directory, requested without a Range
  header, gets the terminal failure 416 and a fixed body, not a stream of zero chunks.
\<close>

theorem serve_file_empty_file_counterexample:
  "status (serve_file example_date example_files ''empty.bin'' None None) = 416
   \<and> body (serve_file example_date example_files ''empty.bin'' None None)
       = Fixed ''Requested Range Not Satisfiable''"
proof -
  have "range_handling (int (length (content (make_file [] 0)))) None = (0, - 1, 200)"
    by (simp add: content_make_file range_handling_def)
  moreover have "(0::int) > - 1" by simp
  ultimately have "serve_file example_date example_files ''empty.bin'' None None
      = \<lparr>status = 416, headers = Map.empty, body = Fixed ''Requested Range Not Satisfiable''\<rparr>"
    by (rule serve_file_not_satisfiable
        [where files = example_files and filename = "''empty.bin''", OF example_files_empty])
  then show ?thesis by simp
qed

text \<open>
  C6, as amended. A request on an existing file whose resolved range has
  \<open>start_byte > end_byte\<close> is answered 416 with a fixed body, whatever the query says; the
  handler gives that response no headers. Every other request on an existing file reaches
  the header step, and there the headers hold Content-Length, equal to
  \<open>end_byte - start_byte + 1\<close> in decimal, if and only if the query parameter
  \<^verbatim>\<open>no_content_length\<close> is not \<^verbatim>\<open>true\<close>. The parameter does not change the body: it is the
  body served without it, and when \<open>start_byte\<close> is not negative it is the full span, the
  \<open>end_byte - start_byte + 1\<close> bytes of the file from \<open>start_byte\<close>.
\<close>

theorem serve_file_content_length:
  assumes "files filename = Some file"
    and "range_handling (int (length (content file))) range_header
           = (start_byte, end_byte, status_code)"
  shows "(if start_byte > end_byte
          then serve_file http_date files filename range_header arg
                 = \<lparr>status = 416, headers = Map.empty,
                    body = Fixed ''Requested Range Not Satisfiable''\<rparr>
          else headers (serve_file http_date files filename range_header arg) ''Content-Length''
                 = (if arg = Some ''true'' then None
                    else Some (str_int (end_byte - start_byte + 1)))
             \<and> body (serve_file http_date files filename range_header arg)
                 = body (serve_file http_date files filename range_header None)
             \<and> (0 \<le> start_byte \<longrightarrow>
                  (\<exists>chunks. body (serve_file http_date files filename range_header arg)
                               = Streamed chunks None
                     \<and> concat chunks
                         = take (nat (end_byte - start_byte + 1))
                             (drop (nat start_byte) (content file))
                     \<and> int (length (concat chunks)) = end_byte - start_byte + 1)))"
proof (cases "start_byte > end_byte")
  case True
  from serve_file_not_satisfiable
      [where files = files and filename = filename, OF assms True]
  show ?thesis using True by simp
next
  case False
  then have le: "start_byte \<le> end_byte" by simp
  note sf = serve_file_streamed [where files = files and filename = filename, OF assms le]
  have e: "end_byte < int (length (content file))"
    using range_handling_end [OF assms(2)] by simp
  have "\<exists>chunks. body (serve_file http_date files filename range_header arg)
                         = Streamed chunks None
               \<and> concat chunks
                   = take (nat (end_byte - start_byte + 1)) (drop (nat start_byte) (content file))
               \<and> int (length (concat chunks)) = end_byte - start_byte + 1"
    if s0: "0 \<le> start_byte"
  proof -
    obtain chunks
      where "generate (content file) start_byte (end_byte - start_byte + 1) = (chunks, None)"
      and "concat chunks
             = take (nat (end_byte - start_byte + 1)) (drop (nat start_byte) (content file))"
      and "int (length (concat chunks)) = end_byte - start_byte + 1"
      using generate_in_file [OF s0 le e content_bound] by blast
    then show ?thesis using sf(2) by simp
  qed
  moreover have "body (serve_file http_date files filename range_header arg)
           = body (serve_file http_date files filename range_header None)"
    using sf(2) [of http_date arg] sf(2) [of http_date None] by simp
  ultimately show ?thesis using sf(3) False by simp
qed

theorem serve_file_content_length_witness:
  "headers (serve_file example_date example_files ''data.bin'' (Some ''bytes=2-5'') (Some ''true''))
     ''Content-Length'' = None
   \<and> headers (serve_file example_date example_files ''data.bin'' (Some ''bytes=2-5'') None)
     ''Content-Length'' = Some ''4''
   \<and> body (serve_file example_date example_files ''data.bin'' (Some ''bytes=2-5'') (Some ''true''))
       = body (serve_file example_date example_files ''data.bin'' (Some ''bytes=2-5'') None)
   \<and> (\<exists>chunks. body (serve_file example_date example_files ''data.bin'' (Some ''bytes=2-5'')
                        (Some ''true'')) = Streamed chunks None
         \<and> concat chunks = [2, 3, 4, 5])
   \<and> serve_file example_date example_files ''data.bin'' (Some ''bytes=7-3'') (Some ''true'')
       = \<lparr>status = 416, headers = Map.empty, body = Fixed ''Requested Range Not Satisfiable''\<rparr>"
proof -
  note h1 = example_files_data
  have h2: "range_handling (int (length (content example_file))) (Some ''bytes=2-5'') = (2, 5, 206)"
    unfolding example_file_content by code_simp
  have h3: "range_handling (int (length (content example_file))) (Some ''bytes=7-3'') = (7, 3, 206)"
    unfolding example_file_content by code_simp
  note w = serve_file_content_length
      [where files = example_files and filename = "''data.bin''"
         and http_date = example_date, OF h1 h2]
  have a: "headers (serve_file example_date example_files ''data.bin'' (Some ''bytes=2-5'')
             (Some ''true'')) ''Content-Length'' = None"
    using w [of "Some ''true''"] by simp
  have a': "headers (serve_file example_date example_files ''data.bin'' (Some ''bytes=2-5'') None)
             ''Content-Length'' = Some ''4''"
    using w [of None] by (simp add: str_int_examples)
  have b: "body (serve_file example_date example_files ''data.bin'' (Some ''bytes=2-5'')
             (Some ''true''))
           = body (serve_file example_date example_files ''data.bin'' (Some ''bytes=2-5'') None)"
    using w [of "Some ''true''"] by simp
  have n: "\<not> (2::int) > 5" and z: "(0::int) \<le> 2" by simp_all
  note w' = w [of "Some ''true''", unfolded if_not_P [OF n]]
  have c: "\<exists>chunks. body (serve_file example_date example_files ''data.bin''
                        (Some ''bytes=2-5'') (Some ''true'')) = Streamed chunks None
         \<and> concat chunks = [2, 3, 4, 5]"
    using w' [THEN conjunct2, THEN conjunct2, THEN mp, OF z]
    by (auto simp: example_file_content)
  have d: "serve_file example_date example_files ''data.bin'' (Some ''bytes=7-3'') (Some ''true'')
       = \<lparr>status = 416, headers = Map.empty, body = Fixed ''Requested Range Not Satisfiable''\<rparr>"
    using serve_file_content_length
      [where files = example_files and filename = "''data.bin''"
         and http_date = example_date and arg = "Some ''true''", OF h1 h3]
    by simp
  from a a' b c d show ?thesis by blast
qed

text \<open>
  C6 as stated fails on a request that is answered 416: on the file of ten bytes,
  \<^verbatim>\<open>Range: bytes=7-3\<close> without \<^verbatim>\<open>no_content_length\<close> resolves to \<open>start = 7\<close>, \<open>end = 3\<close>;
  the answer is 416 with a fixed body and no Content-Length equal to \<open>end - start + 1\<close>.
\<close>

theorem serve_file_content_length_counterexample:
  "range_handling 10 (Some ''bytes=7-3'') = (7, 3, 206)
   \<and> status (serve_file example_date example_files ''data.bin'' (Some ''bytes=7-3'') None) = 416
   \<and> body (serve_file example_date example_files ''data.bin'' (Some ''bytes=7-3'') None)
       = Fixed ''Requested Range Not Satisfiable''
   \<and> headers (serve_file example_date example_files ''data.bin'' (Some ''bytes=7-3'') None)
         ''Content-Length'' \<noteq> Some (str_int (3 - 7 + 1))"
proof -
  have rh: "range_handling 10 (Some ''bytes=7-3'') = (7, 3, 206)" by code_simp
  have "(7::int) > 3" by simp
  note e = serve_example_not_satisfiable [OF rh this, of None]
  from rh e show ?thesis by simp
qed



section \<open>The claims about the echo handlers\<close>




text \<open>
  C8: the handlers on JSON bodies that parse to a falsy value. The body \<^verbatim>\<open>{}\<close> sent to
  \<^verbatim>\<open>/put\<close> as JSON is parsed (the \<open>json\<close> entry is the empty object), and the \<open>data\<close>
  entry is still the raw text \<^verbatim>\<open>{}\<close>, because \<^verbatim>\<open>not json_data\<close> holds of an empty
  dictionary; likewise \<^verbatim>\<open>0\<close> sent to \<^verbatim>\<open>/patch\<close> and \<^verbatim>\<open>false\<close> sent to \<^verbatim>\<open>/delete\<close>. A body
  that parses to a truthy value, such as \<^verbatim>\<open>[1, 2]\<close>, gives the empty string.
\<close>

theorem httpbin_falsy_json_keeps_data:
  "httpbin_put (json_request ''{}'' (Some (JObj [])))
     = Inr [(''args'', JObj []), (''data'', JStr ''{}''), (''files'', JObj []),
            (''form'', JObj []),
            (''headers'', JObj [(''Content-Type'', JStr ''application/json'')]),
            (''json'', JObj []), (''origin'', JStr ''127.0.0.1''),
            (''url'', JStr ''http://127.0.0.1:8080/put'')]
   \<and> response_data (httpbin_put (json_request ''{}'' (Some (JObj [])))) = Some (JStr ''{}'')
   \<and> response_data (httpbin_patch (json_request ''0'' (Some (JInt 0)))) = Some (JStr ''0'')
   \<and> response_data (httpbin_delete (json_request ''false'' (Some (JBool False))))
       = Some (JStr ''false'')
   \<and> response_data (httpbin_put (json_request ''[1, 2]'' (Some (JArr [JInt 1, JInt 2]))))
       = Some (JStr [])"
  by (simp add: httpbin_put_def httpbin_patch_def httpbin_delete_def get_json_data_def
      json_request_def response_data_def to_dict_def multidict_items_def json_of_dict_def
      py_dict_def)

section \<open>Properties of \<^verbatim>\<open>MultiDict.items\<close> and \<^verbatim>\<open>Headers.set\<close>\<close>

lemma same_name_self: "same_name k (k, v)"
  by (simp add: same_name_def)

lemma same_name_cong: "lower k' = lower k \<Longrightarrow> same_name k' = same_name k"
  by (rule ext) (simp add: same_name_def)

lemma filter_same_headers_set:
  "filter (same_name k) (headers_set k v hs) = [(k, v)]"
proof (induction hs)
  case Nil
  show ?case by (simp add: same_name_self)
next
  case (Cons p hs)
  have "filter (same_name k) (filter (\<lambda>q. \<not> same_name k q) hs) = []"
    by (simp add: filter_empty_conv)
  with Cons show ?case by (simp add: same_name_self)
qed

lemma filter_other_headers_set:
  assumes "lower k' \<noteq> lower k"
  shows "filter (same_name k) (headers_set k' v' hs) = filter (same_name k) hs"
proof (induction hs)
  case Nil
  show ?case using assms by (simp add: same_name_def)
next
  case (Cons p hs)
  show ?case
  proof (cases "same_name k' p")
    case True
    then have np: "\<not> same_name k p" using assms by (simp add: same_name_def)
    have nk: "\<not> same_name k (k', v')" using assms by (simp add: same_name_def)
    have "filter (same_name k) (filter (\<lambda>q. \<not> same_name k' q) hs) = filter (same_name k) hs"
      using assms by (simp add: same_name_def cong: filter_cong) (metis)
    with True np nk show ?thesis by simp
  next
    case False
    with Cons show ?thesis by simp
  qed
qed

lemma set_all_filter:
  assumes "list_all (\<lambda>p. \<not> has_newline (snd p)) ps"
  shows "\<exists>hs'. set_all ps hs = Inr hs'
           \<and> filter (same_name k) hs'
               = (if filter (same_name k) ps = [] then filter (same_name k) hs
                  else [last (filter (same_name k) ps)])"
  using assms
proof (induction ps arbitrary: hs)
  case Nil
  show ?case by simp
next
  case (Cons p ps)
  obtain k1 v1 where p: "p = (k1, v1)" by (cases p)
  from Cons.prems have nl: "\<not> has_newline v1" and rest: "list_all (\<lambda>p. \<not> has_newline (snd p)) ps"
    by (simp_all add: p)
  from Cons.IH [OF rest, of "headers_set k1 v1 hs"]
  obtain hs' where s: "set_all ps (headers_set k1 v1 hs) = Inr hs'"
    and f: "filter (same_name k) hs'
               = (if filter (same_name k) ps = [] then filter (same_name k) (headers_set k1 v1 hs)
                  else [last (filter (same_name k) ps)])"
    by blast
  have s': "set_all (p # ps) hs = Inr hs'" using s nl by (simp add: p)
  show ?case
  proof (cases "same_name k p")
    case True
    then have "lower k1 = lower k" by (simp add: same_name_def p)
    then have "filter (same_name k) (headers_set k1 v1 hs) = [(k1, v1)]"
      using filter_same_headers_set [of k1 v1 hs] same_name_cong [of k1 k] by simp
    with f True s' show ?thesis by (simp add: p)
  next
    case False
    then have "lower k1 \<noteq> lower k" by (simp add: same_name_def p)
    from filter_other_headers_set [OF this] f False s' show ?thesis by (simp add: p)
  qed
qed

lemma map_of_first_values:
  "map_of (first_values seen kvs) k = (if k \<in> set seen then None else map_of kvs k)"
proof (induction kvs arbitrary: seen)
  case Nil
  show ?case by simp
next
  case (Cons p kvs)
  obtain k1 v1 where p: "p = (k1, v1)" by (cases p)
  show ?case using Cons [of seen] Cons [of "k1 # seen"] by (auto simp: p)
qed

lemma keys_first_values:
  "fst ` set (first_values seen kvs) = fst ` set kvs - set seen"
proof (induction kvs arbitrary: seen)
  case Nil
  show ?case by simp
next
  case (Cons p kvs)
  obtain k1 v1 where p: "p = (k1, v1)" by (cases p)
  show ?case using Cons [of seen] Cons [of "k1 # seen"] by (auto simp: p)
qed

lemma distinct_first_values:
  "distinct (map fst (first_values seen kvs))"
proof (induction kvs arbitrary: seen)
  case Nil
  show ?case by simp
next
  case (Cons p kvs)
  obtain k1 v1 where p: "p = (k1, v1)" by (cases p)
  have "k1 \<notin> fst ` set (first_values (k1 # seen) kvs)"
    by (simp add: keys_first_values)
  with Cons [of seen] Cons [of "k1 # seen"] show ?case by (simp add: p)
qed

section \<open>The claim about \<^verbatim>\<open>response_headers\<close>\<close>

text \<open>
  C9, as amended. When no value that is set holds a carriage return or a line feed, the
  handler answers, and for every parameter name \<open>k\<close> of the query string the response has
  exactly one header whose name equals \<open>k\<close> without regard to case (as \<^verbatim>\<open>str.lower\<close>
  compares them). That header is a
  parameter name \<open>k'\<close> as it was sent, with the first value the query string gives for
  \<open>k'\<close>; it is \<open>k\<close> itself when no parameter differs from \<open>k\<close> in case only. So a name
  repeated several times yields one header, carrying its first value.
\<close>

theorem response_headers_first_value:
  assumes "list_all (\<lambda>p. \<not> has_newline (snd p)) (multidict_items query_args)"
    and "k \<in> fst ` set query_args"
  shows "\<exists>hs k' v'. response_headers query_args = Inr hs
           \<and> filter (same_name k) hs = [(k', v')]
           \<and> lower k' = lower k
           \<and> map_of query_args k' = Some v'
           \<and> (list_all (\<lambda>p. same_name k p \<longrightarrow> fst p = k) query_args \<longrightarrow> k' = k)"
proof -
  let ?ps = "multidict_items query_args"
  let ?init = "[(''Content-Type'', ''text/html; charset=utf-8''), (''Content-Length'', ''11'')]"
  obtain hs where r: "set_all ?ps ?init = Inr hs"
    and f: "filter (same_name k) hs
               = (if filter (same_name k) ?ps = [] then filter (same_name k) ?init
                  else [last (filter (same_name k) ?ps)])"
    using set_all_filter [OF assms(1), of ?init k] by blast
  have "k \<in> fst ` set ?ps"
    using assms(2) by (simp add: multidict_items_def keys_first_values)
  then obtain v where "(k, v) \<in> set ?ps" by auto
  then have ne: "filter (same_name k) ?ps \<noteq> []"
    using same_name_self [of k v] by (auto simp: filter_empty_conv)
  obtain k' v' where l: "last (filter (same_name k) ?ps) = (k', v')"
    by (cases "last (filter (same_name k) ?ps)")
  have "(k', v') \<in> set (filter (same_name k) ?ps)"
    using last_in_set [OF ne] l by simp
  then have mem: "(k', v') \<in> set ?ps" and sn: "same_name k (k', v')" by simp_all
  have lo: "lower k' = lower k" using sn by (simp add: same_name_def)
  have "map_of ?ps k' = Some v'"
    using mem distinct_first_values [of "[]" query_args]
    by (simp add: multidict_items_def)
  then have mo: "map_of query_args k' = Some v'"
    by (simp add: multidict_items_def map_of_first_values)
  have vb: "k' = k" if a: "list_all (\<lambda>p. same_name k p \<longrightarrow> fst p = k) query_args"
  proof -
    have "(k', v') \<in> set query_args" using mo by (rule map_of_SomeD)
    with a sn show ?thesis by (auto simp: list_all_iff)
  qed
  have "response_headers query_args = Inr hs" using r by (simp add: response_headers_def)
  moreover have "filter (same_name k) hs = [(k', v')]" using f ne l by simp
  ultimately show ?thesis using lo mo vb by blast
qed

theorem response_headers_first_value_witness:
  "response_headers [(''X-A'', ''1''), (''x-a'', ''2''), (''X-A'', ''3'')]
     = Inr [(''Content-Type'', ''text/html; charset=utf-8''), (''Content-Length'', ''11''),
            (''x-a'', ''2'')]
   \<and> (\<exists>hs k' v'. response_headers [(''X-A'', ''1''), (''x-a'', ''2''), (''X-A'', ''3'')] = Inr hs
         \<and> filter (same_name ''X-A'') hs = [(k', v')]
         \<and> lower k' = lower ''X-A''
         \<and> map_of [(''X-A'', ''1''), (''x-a'', ''2''), (''X-A'', ''3'')] k' = Some v')
   \<and> response_headers [([CHR 0xC9], ''1''), ([CHR 0xE9], ''2'')]
     = Inr [(''Content-Type'', ''text/html; charset=utf-8''), (''Content-Length'', ''11''),
            ([CHR 0xE9], ''2'')]
   \<and> (\<exists>hs k' v'. response_headers [([CHR 0xC9], ''1''), ([CHR 0xE9], ''2'')] = Inr hs
         \<and> filter (same_name [CHR 0xC9]) hs = [(k', v')]
         \<and> lower k' = lower [CHR 0xC9]
         \<and> map_of [([CHR 0xC9], ''1''), ([CHR 0xE9], ''2'')] k' = Some v')"
proof -
  let ?q = "[(''X-A'', ''1''), (''x-a'', ''2''), (''X-A'', ''3'')]"
  let ?r = "[([CHR 0xC9], ''1''), ([CHR 0xE9], ''2'')]"
  have h1: "list_all (\<lambda>p. \<not> has_newline (snd p)) (multidict_items ?q)"
    by code_simp
  have h2: "''X-A'' \<in> fst ` set ?q" by simp
  have a: "response_headers ?q
     = Inr [(''Content-Type'', ''text/html; charset=utf-8''), (''Content-Length'', ''11''),
            (''x-a'', ''2'')]"
    by code_simp
  have h3: "list_all (\<lambda>p. \<not> has_newline (snd p)) (multidict_items ?r)"
    by code_simp
  have h4: "[CHR 0xC9] \<in> fst ` set ?r" by simp
  have b: "response_headers ?r
     = Inr [(''Content-Type'', ''text/html; charset=utf-8''), (''Content-Length'', ''11''),
            ([CHR 0xE9], ''2'')]"
    by code_simp
  from response_headers_first_value [OF h1 h2] response_headers_first_value [OF h3 h4] a b
  show ?thesis by blast
qed

text \<open>
  C9 as stated fails: \<^verbatim>\<open>Set-Cookie\<close> sent twice yields one \<^verbatim>\<open>Set-Cookie\<close> header, with the
  first value; the second pair is not copied.
\<close>

theorem response_headers_repeated_counterexample:
  "response_headers [(''Set-Cookie'', ''a=1''), (''Set-Cookie'', ''b=2'')]
     = Inr [(''Content-Type'', ''text/html; charset=utf-8''), (''Content-Length'', ''11''),
            (''Set-Cookie'', ''a=1'')]"
  by code_simp


end
